theory Spec2Isabelle
  imports Main
begin

section \<open>gdb::unique_ptr (C++03 emulation) and the safe bool idiom\<close>

text \<open>
  A shallow embedding of \<^verbatim>\<open>gdb/common/gdb_unique_ptr.h\<close> (the branch compiled when
  \<^verbatim>\<open>__cplusplus < 201103\<close>) and of \<^verbatim>\<open>gdb/common/safe-bool.h\<close>.

  The class \<^verbatim>\<open>unique_ptr_base<T, D>\<close> has one data member, \<^verbatim>\<open>m_ptr\<close>. Several of its
  operations take a second instance by non-const reference and mutate it, and assignment
  may be applied to an instance and itself, so instances live in an explicit store: the
  identity of an instance (its \<^verbatim>\<open>this\<close>) is an index into the list of all instances
  constructed so far, and the entry is \<open>Some m_ptr\<close> while the instance is alive and
  \<open>None\<close> once its destructor has run.

  The deleter \<^verbatim>\<open>D\<close> is stateless and is only ever invoked by \<^verbatim>\<open>call_deleter\<close>. The store
  records the argument of every invocation of \<^verbatim>\<open>D::operator()\<close>, in order.
\<close>

subsection \<open>Addresses, instances, the store\<close>

type_synonym pointer = nat

definition NULL :: pointer where
  "NULL = 0"

type_synonym ident = nat

record world =
  objs :: "pointer option list"
  calls :: "pointer list"

definition empty_world :: world where
  "empty_world = \<lparr>objs = [], calls = []\<rparr>"

text \<open>
  \<^verbatim>\<open>element_type *get () const throw() { return m_ptr; }\<close>
  The result is \<open>None\<close> when \<open>this\<close> is not a live instance (a member call on an object
  that does not exist, or whose lifetime has ended, has no defined behaviour in C++).
\<close>

definition get :: "ident \<Rightarrow> world \<Rightarrow> pointer option" where
  "get this w = (if this < length (objs w) then objs w ! this else None)"

text \<open>The store \<^verbatim>\<open>m_ptr = p\<close> inside a member function of a live instance.\<close>

definition set_m_ptr :: "ident \<Rightarrow> pointer \<Rightarrow> world \<Rightarrow> world" where
  "set_m_ptr this p w = w\<lparr>objs := (objs w)[this := Some p]\<rparr>"

text \<open>
  A constructor's member initialiser \<^verbatim>\<open>m_ptr (p)\<close>: a new instance comes into existence
  holding \<open>p\<close>. Its identity is returned with the new store.
\<close>

definition new_instance :: "pointer \<Rightarrow> world \<Rightarrow> ident \<times> world" where
  "new_instance p w = (length (objs w), w\<lparr>objs := objs w @ [Some p]\<rparr>)"

text \<open>The end of the lifetime of an instance, once the body of its destructor has run.\<close>

definition end_lifetime :: "ident \<Rightarrow> world \<Rightarrow> world" where
  "end_lifetime this w = w\<lparr>objs := (objs w)[this := None]\<rparr>"

text \<open>One invocation \<^verbatim>\<open>d (ptr)\<close> of the deleter's \<^verbatim>\<open>operator()\<close>.\<close>

definition invoke_deleter :: "pointer \<Rightarrow> world \<Rightarrow> world" where
  "invoke_deleter ptr w = w\<lparr>calls := calls w @ [ptr]\<rparr>"

subsection \<open>The members of \<^verbatim>\<open>unique_ptr_base\<close>\<close>

text \<open>
  \<^verbatim>\<open>void call_deleter () { D d; d (m_ptr); }\<close>
  The deleter is invoked on \<^verbatim>\<open>m_ptr\<close> whatever its value is; there is no test for NULL.
\<close>

definition call_deleter :: "ident \<Rightarrow> world \<Rightarrow> world option" where
  "call_deleter this w =
     (case get this w of
        None \<Rightarrow> None
      | Some m \<Rightarrow> Some (invoke_deleter m w))"

text \<open>
  \<^verbatim>\<open>explicit unique_ptr_base (element_type *p = NULL) throw() : m_ptr (p) {}\<close>
\<close>

definition unique_ptr_base :: "pointer \<Rightarrow> world \<Rightarrow> ident \<times> world" where
  "unique_ptr_base p w = new_instance p w"

text \<open>
  \<^verbatim>\<open>element_type *release () throw()
  { pointer tmp = m_ptr; m_ptr = NULL; return tmp; }\<close>
\<close>

definition release :: "ident \<Rightarrow> world \<Rightarrow> (pointer \<times> world) option" where
  "release this w =
     (case get this w of
        None \<Rightarrow> None
      | Some tmp \<Rightarrow> Some (tmp, set_m_ptr this NULL w))"

text \<open>
  \<^verbatim>\<open>void reset (element_type *p = NULL) throw()
  { if (p != m_ptr) { call_deleter (); m_ptr = p; } }\<close>
\<close>

definition reset :: "ident \<Rightarrow> pointer \<Rightarrow> world \<Rightarrow> world option" where
  "reset this p w =
     (case get this w of
        None \<Rightarrow> None
      | Some m \<Rightarrow>
          if p \<noteq> m
          then (case call_deleter this w of
                  None \<Rightarrow> None
                | Some w' \<Rightarrow> Some (set_m_ptr this p w'))
          else Some w)"

text \<open>
  \<^verbatim>\<open>unique_ptr_base (unique_ptr_base& a) throw() : m_ptr (a.release ()) {}\<close>
\<close>

definition unique_ptr_base_copy :: "ident \<Rightarrow> world \<Rightarrow> (ident \<times> world) option" where
  "unique_ptr_base_copy a w =
     (case release a w of
        None \<Rightarrow> None
      | Some (p, w') \<Rightarrow> Some (unique_ptr_base p w'))"

text \<open>
  \<^verbatim>\<open>unique_ptr_base& operator= (unique_ptr_base &a) throw()
  { reset (a.release ()); return *this; }\<close>
  The argument is evaluated first: \<open>a\<close> is released, then \<open>this\<close> is reset in the store
  that results. \<open>this\<close> and \<open>a\<close> may be the same instance.
\<close>

definition assign :: "ident \<Rightarrow> ident \<Rightarrow> world \<Rightarrow> world option" where
  "assign this a w =
     (case release a w of
        None \<Rightarrow> None
      | Some (p, w') \<Rightarrow> reset this p w')"

text \<open>
  \<^verbatim>\<open>unique_ptr_base & operator= (const unique_ptr_nullptr_t &) throw()
  { reset (); return *this; }\<close>
\<close>

definition assign_null :: "ident \<Rightarrow> world \<Rightarrow> world option" where
  "assign_null this w = reset this NULL w"

text \<open>
  \<^verbatim>\<open>~unique_ptr_base () { call_deleter (); }\<close>
  After the body has run the instance is no longer alive.
\<close>

definition destructor :: "ident \<Rightarrow> world \<Rightarrow> world option" where
  "destructor this w =
     (case call_deleter this w of
        None \<Rightarrow> None
      | Some w' \<Rightarrow> Some (end_lifetime this w'))"

text \<open>
  \<^verbatim>\<open>template <typename T1> struct unique_ptr_base_ref
  { T1 *m_ptr; explicit unique_ptr_base_ref (T1 *p): m_ptr (p) {} };\<close>
  A plain value carrying an address; it owns nothing and has no destructor of its own.
  It is a member of \<^verbatim>\<open>unique_ptr_base<T, D>\<close>: the constructor and the assignment operator
  of an instance accept a \<^verbatim>\<open>unique_ptr_base_ref\<close> taken from an instance of the same
  \<^verbatim>\<open>unique_ptr_base<T, D>\<close> only.
\<close>

datatype unique_ptr_base_ref = unique_ptr_base_ref (ref_m_ptr: pointer)

text \<open>
  \<^verbatim>\<open>unique_ptr_base (unique_ptr_base_ref<element_type> ref) throw()
    : m_ptr (ref.m_ptr) {}\<close>
\<close>

definition unique_ptr_base_from_ref :: "unique_ptr_base_ref \<Rightarrow> world \<Rightarrow> ident \<times> world" where
  "unique_ptr_base_from_ref ref w = new_instance (ref_m_ptr ref) w"

text \<open>
  \<^verbatim>\<open>unique_ptr_base & operator= (unique_ptr_base_ref<element_type> ref) throw()
  { if (ref.m_ptr != this->get()) { call_deleter (); m_ptr = ref.m_ptr; }
    return *this; }\<close>
\<close>

definition assign_ref :: "ident \<Rightarrow> unique_ptr_base_ref \<Rightarrow> world \<Rightarrow> world option" where
  "assign_ref this ref w =
     (case get this w of
        None \<Rightarrow> None
      | Some m \<Rightarrow>
          if ref_m_ptr ref \<noteq> m
          then (case call_deleter this w of
                  None \<Rightarrow> None
                | Some w' \<Rightarrow> Some (set_m_ptr this (ref_m_ptr ref) w'))
          else Some w)"

text \<open>
  \<^verbatim>\<open>template<typename T1> operator unique_ptr_base_ref<T1> () throw()
  { return unique_ptr_base_ref<T1> (this->release ()); }\<close>
\<close>

definition operator_unique_ptr_base_ref ::
  "ident \<Rightarrow> world \<Rightarrow> (unique_ptr_base_ref \<times> world) option" where
  "operator_unique_ptr_base_ref this w =
     (case release this w of
        None \<Rightarrow> None
      | Some (p, w') \<Rightarrow> Some (unique_ptr_base_ref p, w'))"

text \<open>
  \<^verbatim>\<open>template<typename T1, typename D1> operator unique_ptr_base<T1, D1> () throw()
  { return unique_ptr_base<T1, D1> (this->release ()); }\<close>
  The operand of \<^verbatim>\<open>return\<close> is a temporary of the result type, constructed from the
  released address. The result is initialised from that temporary. A temporary does not
  bind to the non-const reference of \<^verbatim>\<open>unique_ptr_base (unique_ptr_base&)\<close>, so it is
  emptied by its own \<^verbatim>\<open>operator unique_ptr_base_ref<T1>\<close> and the result is built by the
  constructor that takes a \<^verbatim>\<open>unique_ptr_base_ref\<close>. Then the destructor of the temporary
  runs. The pointee types \<^verbatim>\<open>T\<close> and \<^verbatim>\<open>T1\<close> are not distinguished in the store: an address
  is an address.
\<close>

definition operator_unique_ptr_base :: "ident \<Rightarrow> world \<Rightarrow> (ident \<times> world) option" where
  "operator_unique_ptr_base this w =
     (case release this w of
        None \<Rightarrow> None
      | Some (p, w1) \<Rightarrow>
          (case unique_ptr_base p w1 of
             (tmp, w2) \<Rightarrow>
               (case operator_unique_ptr_base_ref tmp w2 of
                  None \<Rightarrow> None
                | Some (ref, w3) \<Rightarrow>
                    (case unique_ptr_base_from_ref ref w3 of
                       (r, w4) \<Rightarrow>
                         (case destructor tmp w4 of
                            None \<Rightarrow> None
                          | Some w5 \<Rightarrow> Some (r, w5))))))"

text \<open>
  \<^verbatim>\<open>template<typename T, typename D> unique_ptr_base<T, D>
  move (unique_ptr_base<T, D> v) { return v; }\<close>
  The parameter \<open>v\<close> is passed by value: it is a new instance, initialised from the
  caller's instance \<open>arg\<close> with the constructor \<^verbatim>\<open>unique_ptr_base (unique_ptr_base&)\<close>.
  \<^verbatim>\<open>return v\<close> initialises the result from the lvalue \<open>v\<close> with the same constructor, and
  then the destructor of \<open>v\<close> runs.
\<close>

definition move :: "ident \<Rightarrow> world \<Rightarrow> (ident \<times> world) option" where
  "move arg w =
     (case unique_ptr_base_copy arg w of
        None \<Rightarrow> None
      | Some (v, w1) \<Rightarrow>
          (case unique_ptr_base_copy v w1 of
             None \<Rightarrow> None
           | Some (r, w2) \<Rightarrow>
               (case destructor v w2 of
                  None \<Rightarrow> None
                | Some w3 \<Rightarrow> Some (r, w3))))"

subsection \<open>The default deleter\<close>

text \<open>
  \<^verbatim>\<open>template<typename T> struct default_delete
  { void operator () (T *ptr) const { delete ptr; } };\<close>
  (and \<^verbatim>\<open>delete [] ptr\<close> in the specialisation for arrays). A delete-expression whose
  operand is a null pointer has no effect; otherwise the pointee is destroyed and its
  storage released. The effect is recorded as the list of addresses freed.
\<close>

definition default_delete :: "pointer \<Rightarrow> pointer list \<Rightarrow> pointer list" where
  "default_delete ptr freed = (if ptr = NULL then freed else freed @ [ptr])"

text \<open>What the deleter invocations recorded in a store free when \<^verbatim>\<open>D\<close> is \<^verbatim>\<open>default_delete<T>\<close>.\<close>

definition freed :: "world \<Rightarrow> pointer list" where
  "freed w = foldl (\<lambda>acc ptr. default_delete ptr acc) [] (calls w)"

subsection \<open>The safe bool idiom\<close>

text \<open>
  \<^verbatim>\<open>typedef void (safe_bool_base::*bool_type) () const;\<close>
  A value of this type is either the null member pointer or the address of the one member
  function \<^verbatim>\<open>this_type_does_not_support_comparisons\<close>.
\<close>

datatype bool_type = null_member_pointer | this_type_does_not_support_comparisons

text \<open>A \<^verbatim>\<open>bool_type\<close> in the condition of \<^verbatim>\<open>if\<close>, \<^verbatim>\<open>while\<close> or under \<^verbatim>\<open>!\<close>: true unless null.\<close>

definition in_condition :: "bool_type \<Rightarrow> bool" where
  "in_condition b = (b \<noteq> null_member_pointer)"

text \<open>
  \<^verbatim>\<open>bool explicit_operator_bool () const { return m_ptr != NULL; }\<close>
\<close>

definition explicit_operator_bool :: "ident \<Rightarrow> world \<Rightarrow> bool option" where
  "explicit_operator_bool this w =
     (case get this w of
        None \<Rightarrow> None
      | Some m \<Rightarrow> Some (m \<noteq> NULL))"

text \<open>
  \<^verbatim>\<open>operator bool_type () const
  { return (static_cast<const T *>(this))->explicit_operator_bool ()
      ? &safe_bool_base::this_type_does_not_support_comparisons : 0; }\<close>
\<close>

definition operator_bool_type :: "ident \<Rightarrow> world \<Rightarrow> bool_type option" where
  "operator_bool_type this w =
     (case explicit_operator_bool this w of
        None \<Rightarrow> None
      | Some b \<Rightarrow>
          Some (if b then this_type_does_not_support_comparisons else null_member_pointer))"

text \<open>The boolean test \<^verbatim>\<open>if (ptr)\<close> of an owning pointer.\<close>

definition bool_test :: "ident \<Rightarrow> world \<Rightarrow> bool option" where
  "bool_test this w = map_option in_condition (operator_bool_type this w)"

text \<open>
  \<^verbatim>\<open>template <typename T, typename U>
  bool operator== (const safe_bool<T> &lhs, const safe_bool<U> &rhs)
  { lhs.this_type_does_not_support_comparisons (); return false; }\<close>
  and the same body for \<^verbatim>\<open>operator!=\<close>. The member called has an empty body,
  \<^verbatim>\<open>void this_type_does_not_support_comparisons () const {}\<close>; it is protected, so
  where the call is not accessible the program is rejected by the compiler and there is
  nothing to run. The operands are two live instances of classes derived from
  \<^verbatim>\<open>safe_bool\<close>; here they are given by what their \<^verbatim>\<open>operator bool_type\<close> returns.
\<close>

definition call_this_type_does_not_support_comparisons :: "bool_type \<Rightarrow> unit" where
  "call_this_type_does_not_support_comparisons lhs = ()"

definition safe_bool_eq :: "bool_type \<Rightarrow> bool_type \<Rightarrow> bool" where
  "safe_bool_eq lhs rhs = (let done = call_this_type_does_not_support_comparisons lhs in False)"

definition safe_bool_ne :: "bool_type \<Rightarrow> bool_type \<Rightarrow> bool" where
  "safe_bool_ne lhs rhs = (let done = call_this_type_does_not_support_comparisons lhs in False)"

subsection \<open>Sequences of operations\<close>

text \<open>
  A client program, as far as the owning pointers are concerned, is a sequence of calls
  of the public operations. A raw address returned by \<open>release\<close> or \<open>get\<close> goes to the
  client, who may pass any address to a constructor or to \<open>reset\<close>. \<open>Convert\<close> is the
  conversion operator to another \<^verbatim>\<open>unique_ptr_base<T1, D1>\<close>; \<open>ConvertConstruct\<close> and
  \<open>ConvertAssign\<close> take a \<^verbatim>\<open>unique_ptr_base_ref\<close> from an instance and construct, respectively
  assign, an instance of the same type from it.
\<close>

datatype op =
    Construct pointer
  | ConstructFrom ident
  | AssignFrom ident ident
  | AssignNull ident
  | Get ident
  | BoolTest ident
  | Release ident
  | Reset ident pointer
  | Destroy ident
  | Convert ident
  | ConvertConstruct ident
  | ConvertAssign ident ident
  | Move ident

fun exec :: "op \<Rightarrow> world \<Rightarrow> world option" where
  "exec (Construct p) w = Some (snd (unique_ptr_base p w))"
| "exec (ConstructFrom a) w = map_option snd (unique_ptr_base_copy a w)"
| "exec (AssignFrom this a) w = assign this a w"
| "exec (AssignNull this) w = assign_null this w"
| "exec (Get this) w = map_option (\<lambda>_. w) (get this w)"
| "exec (BoolTest this) w = map_option (\<lambda>_. w) (bool_test this w)"
| "exec (Release this) w = map_option snd (release this w)"
| "exec (Reset this p) w = reset this p w"
| "exec (Destroy this) w = destructor this w"
| "exec (Convert a) w = map_option snd (operator_unique_ptr_base a w)"
| "exec (ConvertConstruct a) w =
     (case operator_unique_ptr_base_ref a w of
        None \<Rightarrow> None
      | Some (ref, w') \<Rightarrow> Some (snd (unique_ptr_base_from_ref ref w')))"
| "exec (ConvertAssign this a) w =
     (case operator_unique_ptr_base_ref a w of
        None \<Rightarrow> None
      | Some (ref, w') \<Rightarrow> assign_ref this ref w')"
| "exec (Move a) w = map_option snd (move a w)"


text \<open>
  Single ownership: no two live instances hold the same non-null address.
\<close>

definition single_owner :: "world \<Rightarrow> bool" where
  "single_owner w =
     (\<forall>i \<in> set [0..<length (objs w)]. \<forall>j \<in> set [0..<length (objs w)].
        (case objs w ! i of
           None \<Rightarrow> True
         | Some p \<Rightarrow> p = NULL \<or> objs w ! j \<noteq> Some p \<or> i = j))"

text \<open>The live instances that hold the address \<open>p\<close>.\<close>

definition holders :: "pointer \<Rightarrow> world \<Rightarrow> ident list" where
  "holders p w = filter (\<lambda>i. objs w ! i = Some p) [0..<length (objs w)]"

text \<open>
  The client's side of the contract: a raw address handed to a constructor or to \<open>reset\<close>
  is null or is not held by any other live instance at that moment.
\<close>

fun supplies_unheld :: "op \<Rightarrow> world \<Rightarrow> bool" where
  "supplies_unheld (Construct p) w = (p = NULL \<or> holders p w = [])"
| "supplies_unheld (Reset this p) w = (p = NULL \<or> list_all (\<lambda>i. i = this) (holders p w))"
| "supplies_unheld _ w = True"

fun client_ok :: "op list \<Rightarrow> world \<Rightarrow> bool" where
  "client_ok [] w = True"
| "client_ok (x # xs) w =
     (supplies_unheld x w \<and>
      (case exec x w of None \<Rightarrow> True | Some w' \<Rightarrow> client_ok xs w'))"

text \<open>
  The store reached after each prefix of a sequence, the last one first; \<open>None\<close> when a
  call is made on an instance that is not alive.
\<close>

fun states :: "op list \<Rightarrow> world \<Rightarrow> world list option" where
  "states [] w = Some [w]"
| "states (x # xs) w =
     (case exec x w of
        None \<Rightarrow> None
      | Some w' \<Rightarrow> map_option (\<lambda>ws. ws @ [w]) (states xs w'))"


section \<open>Properties\<close>

subsection \<open>The store primitives\<close>

lemma get_Some_less: "get i w = Some p \<Longrightarrow> i < length (objs w)"
  by (simp add: get_def split: if_splits)

lemma get_fresh: "get (length (objs w)) w = None"
  by (simp add: get_def)

lemma get_set_m_ptr:
  "get i (set_m_ptr this p w) =
     (if i = this \<and> this < length (objs w) then Some p else get i w)"
  by (simp add: get_def set_m_ptr_def)

lemma calls_set_m_ptr: "calls (set_m_ptr this p w) = calls w"
  by (simp add: set_m_ptr_def)

lemma length_set_m_ptr: "length (objs (set_m_ptr this p w)) = length (objs w)"
  by (simp add: set_m_ptr_def)

lemma get_new_instance:
  "get i (snd (new_instance p w)) = (if i = length (objs w) then Some p else get i w)"
  by (simp add: get_def new_instance_def nth_append)

lemma calls_new_instance: "calls (snd (new_instance p w)) = calls w"
  by (simp add: new_instance_def)

lemma fst_new_instance: "fst (new_instance p w) = length (objs w)"
  by (simp add: new_instance_def)

lemma length_new_instance: "length (objs (snd (new_instance p w))) = Suc (length (objs w))"
  by (simp add: new_instance_def)

lemma get_end_lifetime:
  "get i (end_lifetime this w) = (if i = this then None else get i w)"
  by (simp add: get_def end_lifetime_def)

lemma calls_end_lifetime: "calls (end_lifetime this w) = calls w"
  by (simp add: end_lifetime_def)

lemma length_end_lifetime: "length (objs (end_lifetime this w)) = length (objs w)"
  by (simp add: end_lifetime_def)

lemma get_invoke_deleter: "get i (invoke_deleter ptr w) = get i w"
  by (simp add: get_def invoke_deleter_def)

lemma calls_invoke_deleter: "calls (invoke_deleter ptr w) = calls w @ [ptr]"
  by (simp add: invoke_deleter_def)

lemma length_invoke_deleter: "length (objs (invoke_deleter ptr w)) = length (objs w)"
  by (simp add: invoke_deleter_def)

lemmas store_simps =
  get_fresh get_set_m_ptr calls_set_m_ptr length_set_m_ptr
  get_new_instance calls_new_instance fst_new_instance length_new_instance
  get_end_lifetime calls_end_lifetime length_end_lifetime
  get_invoke_deleter calls_invoke_deleter length_invoke_deleter

subsection \<open>What each member does to the store\<close>

lemma reset_alt:
  "reset this p w =
     (case get this w of
        None \<Rightarrow> None
      | Some m \<Rightarrow> Some (if p \<noteq> m then set_m_ptr this p (invoke_deleter m w) else w))"
  by (simp add: reset_def call_deleter_def split: option.splits)

lemma assign_ref_alt:
  "assign_ref this ref w =
     (case get this w of
        None \<Rightarrow> None
      | Some m \<Rightarrow> Some (if ref_m_ptr ref \<noteq> m
                        then set_m_ptr this (ref_m_ptr ref) (invoke_deleter m w) else w))"
  by (simp add: assign_ref_def call_deleter_def split: option.splits)

lemma destructor_alt:
  "destructor this w =
     (case get this w of
        None \<Rightarrow> None
      | Some m \<Rightarrow> Some (end_lifetime this (invoke_deleter m w)))"
  by (simp add: destructor_def call_deleter_def split: option.splits)

lemma unique_ptr_base_alt:
  "unique_ptr_base p w = (length (objs w), snd (new_instance p w))"
  by (simp add: unique_ptr_base_def new_instance_def)

lemma unique_ptr_base_from_ref_alt:
  "unique_ptr_base_from_ref ref w = (length (objs w), snd (new_instance (ref_m_ptr ref) w))"
  by (simp add: unique_ptr_base_from_ref_def new_instance_def)

lemma unique_ptr_base_copy_alt:
  "unique_ptr_base_copy a w =
     (case get a w of
        None \<Rightarrow> None
      | Some p \<Rightarrow> Some (length (objs w), snd (new_instance p (set_m_ptr a NULL w))))"
  by (simp add: unique_ptr_base_copy_def unique_ptr_base_alt release_def length_set_m_ptr
      split: option.splits)

lemma operator_unique_ptr_base_ref_alt:
  "operator_unique_ptr_base_ref a w =
     (case get a w of
        None \<Rightarrow> None
      | Some p \<Rightarrow> Some (unique_ptr_base_ref p, set_m_ptr a NULL w))"
  by (simp add: operator_unique_ptr_base_ref_def release_def split: option.splits)

lemma operator_unique_ptr_base_alt:
  "operator_unique_ptr_base a w =
     (case get a w of
        None \<Rightarrow> None
      | Some p \<Rightarrow>
          Some (Suc (length (objs w)),
                end_lifetime (length (objs w)) (invoke_deleter NULL
                  (snd (new_instance p (set_m_ptr (length (objs w)) NULL
                     (snd (new_instance p (set_m_ptr a NULL w)))))))))"
  by (simp add: operator_unique_ptr_base_def unique_ptr_base_alt release_def
      operator_unique_ptr_base_ref_alt unique_ptr_base_from_ref_alt destructor_alt store_simps
      split: option.splits)

lemma assign_alt:
  "assign this a w =
     (case get a w of
        None \<Rightarrow> None
      | Some p \<Rightarrow> reset this p (set_m_ptr a NULL w))"
  by (simp add: assign_def release_def split: option.splits)

lemma move_alt:
  "move arg w =
     (case get arg w of
        None \<Rightarrow> None
      | Some p \<Rightarrow>
          Some (Suc (length (objs w)),
                end_lifetime (length (objs w)) (invoke_deleter NULL
                  (snd (new_instance p (set_m_ptr (length (objs w)) NULL
                     (snd (new_instance p (set_m_ptr arg NULL w)))))))))"
  by (simp add: move_def unique_ptr_base_copy_alt destructor_alt store_simps
      split: option.splits)

lemma bool_test_alt:
  "bool_test this w = (case get this w of None \<Rightarrow> None | Some m \<Rightarrow> Some (m \<noteq> NULL))"
  by (simp add: bool_test_def operator_bool_type_def explicit_operator_bool_def in_condition_def
      split: option.splits)

lemma holders_Nil: "holders p w = [] \<longleftrightarrow> (\<forall>i. get i w \<noteq> Some p)"
  by (auto simp: holders_def get_def filter_empty_conv)

lemma holders_only:
  "list_all (\<lambda>i. i = this) (holders p w) \<longleftrightarrow> (\<forall>i. get i w = Some p \<longrightarrow> i = this)"
  by (auto simp: holders_def get_def list_all_iff)

subsection \<open>Single ownership, read through \<open>get\<close>\<close>

lemma single_owner_iff:
  "single_owner w \<longleftrightarrow>
     (\<forall>i j p. get i w = Some p \<and> get j w = Some p \<and> p \<noteq> NULL \<longrightarrow> i = j)"
proof
  assume s: "single_owner w"
  show "\<forall>i j p. get i w = Some p \<and> get j w = Some p \<and> p \<noteq> NULL \<longrightarrow> i = j"
  proof (intro allI impI)
    fix i j p
    assume h: "get i w = Some p \<and> get j w = Some p \<and> p \<noteq> NULL"
    then have i: "i < length (objs w)" "objs w ! i = Some p"
      and j: "j < length (objs w)" "objs w ! j = Some p"
      by (auto simp: get_def split: if_splits)
    from s i(1) j(1)
    have "case objs w ! i of None \<Rightarrow> True | Some p \<Rightarrow> p = NULL \<or> objs w ! j \<noteq> Some p \<or> i = j"
      unfolding single_owner_def by simp
    with i(2) j(2) h show "i = j" by simp
  qed
next
  assume a: "\<forall>i j p. get i w = Some p \<and> get j w = Some p \<and> p \<noteq> NULL \<longrightarrow> i = j"
  show "single_owner w"
    unfolding single_owner_def
  proof (intro ballI)
    fix i j
    assume "i \<in> set [0..<length (objs w)]" "j \<in> set [0..<length (objs w)]"
    then have lt: "i < length (objs w)" "j < length (objs w)" by simp_all
    show "case objs w ! i of None \<Rightarrow> True | Some p \<Rightarrow> p = NULL \<or> objs w ! j \<noteq> Some p \<or> i = j"
    proof (cases "objs w ! i")
      case None
      then show ?thesis by simp
    next
      case (Some p)
      with lt a [rule_format, of i p j] show ?thesis
        by (auto simp: get_def)
    qed
  qed
qed

subsection \<open>Each operation preserves single ownership\<close>

lemma get_set_m_ptr_live:
  "get this w \<noteq> None \<Longrightarrow>
   get i (set_m_ptr this p w) = (if i = this then Some p else get i w)"
  by (auto simp: get_def set_m_ptr_def split: if_splits)

lemma single_owner_invoke_deleter: "single_owner (invoke_deleter m w) = single_owner w"
  by (simp add: single_owner_iff get_invoke_deleter)

lemma single_owner_end_lifetime: "single_owner w \<Longrightarrow> single_owner (end_lifetime this w)"
  by (simp add: single_owner_iff get_end_lifetime split: if_splits)

lemma single_owner_set_m_ptr:
  assumes "single_owner w" "get this w \<noteq> None"
    and "p = NULL \<or> (\<forall>i. get i w = Some p \<longrightarrow> i = this)"
  shows "single_owner (set_m_ptr this p w)"
  unfolding single_owner_iff
proof (intro allI impI)
  fix i j q
  assume h: "get i (set_m_ptr this p w) = Some q \<and> get j (set_m_ptr this p w) = Some q \<and> q \<noteq> NULL"
  show "i = j"
  proof (cases "i = this"; cases "j = this")
    assume "i = this" "j = this" then show ?thesis by simp
  next
    assume a: "i = this" "j \<noteq> this"
    with h assms(2) have "q = p" "get j w = Some p" by (simp_all add: get_set_m_ptr_live)
    with h assms(3) a show ?thesis by auto
  next
    assume a: "i \<noteq> this" "j = this"
    with h assms(2) have "q = p" "get i w = Some p" by (simp_all add: get_set_m_ptr_live)
    with h assms(3) a show ?thesis by auto
  next
    assume a: "i \<noteq> this" "j \<noteq> this"
    with h assms(2) have "get i w = Some q" "get j w = Some q" by (simp_all add: get_set_m_ptr_live)
    with h assms(1) show ?thesis unfolding single_owner_iff by blast
  qed
qed

lemma single_owner_new_instance:
  assumes "single_owner w" and "p = NULL \<or> (\<forall>i. get i w \<noteq> Some p)"
  shows "single_owner (snd (new_instance p w))"
  unfolding single_owner_iff
proof (intro allI impI)
  fix i j q
  assume h: "get i (snd (new_instance p w)) = Some q \<and> get j (snd (new_instance p w)) = Some q
             \<and> q \<noteq> NULL"
  show "i = j"
  proof (cases "i = length (objs w)"; cases "j = length (objs w)")
    assume "i = length (objs w)" "j = length (objs w)" then show ?thesis by simp
  next
    assume a: "i = length (objs w)" "j \<noteq> length (objs w)"
    with h have "q = p" "get j w = Some p" by (simp_all add: get_new_instance)
    with h assms(2) show ?thesis by auto
  next
    assume a: "i \<noteq> length (objs w)" "j = length (objs w)"
    with h have "q = p" "get i w = Some p" by (simp_all add: get_new_instance)
    with h assms(2) show ?thesis by auto
  next
    assume a: "i \<noteq> length (objs w)" "j \<noteq> length (objs w)"
    with h have "get i w = Some q" "get j w = Some q" by (simp_all add: get_new_instance)
    with h assms(1) show ?thesis unfolding single_owner_iff by blast
  qed
qed

text \<open>Once its single holder has let go of it, an address is held by nobody.\<close>

lemma unheld_after_release:
  assumes "single_owner w" "get a w = Some p"
  shows "p = NULL \<or> (\<forall>i. get i (set_m_ptr a NULL w) \<noteq> Some p)"
proof (cases "p = NULL")
  case True then show ?thesis by simp
next
  case False
  have "get i (set_m_ptr a NULL w) \<noteq> Some p" for i
  proof (cases "i = a")
    case True
    with assms(2) False show ?thesis by (simp add: get_set_m_ptr_live)
  next
    case ne: False
    with assms(2) have "get i (set_m_ptr a NULL w) = get i w" by (simp add: get_set_m_ptr_live)
    moreover have "get i w \<noteq> Some p"
      using assms False ne unfolding single_owner_iff by blast
    ultimately show ?thesis by simp
  qed
  then show ?thesis by simp
qed

lemma single_owner_release:
  assumes "single_owner w" "get a w \<noteq> None"
  shows "single_owner (set_m_ptr a NULL w)"
  using assms by (simp add: single_owner_set_m_ptr)

text \<open>Taking the address out of \<open>a\<close> and putting it into a new instance.\<close>

lemma single_owner_transfer_new:
  assumes "single_owner w" "get a w = Some p"
  shows "single_owner (snd (new_instance p (set_m_ptr a NULL w)))"
  using assms
  by (intro single_owner_new_instance single_owner_release unheld_after_release) simp_all

text \<open>Resetting a live instance to an address that no other instance holds.\<close>

lemma single_owner_reset:
  assumes "single_owner w" "reset this p w = Some w'"
    and "p = NULL \<or> (\<forall>i. get i w = Some p \<longrightarrow> i = this)"
  shows "single_owner w'"
proof -
  from assms(2) obtain m where m: "get this w = Some m"
    and w': "w' = (if p \<noteq> m then set_m_ptr this p (invoke_deleter m w) else w)"
    by (auto simp: reset_alt split: option.splits)
  show ?thesis
  proof (cases "p = m")
    case True with w' assms(1) show ?thesis by simp
  next
    case False
    have "single_owner (set_m_ptr this p (invoke_deleter m w))"
      using assms(1,3) m
      by (intro single_owner_set_m_ptr) (simp_all add: single_owner_invoke_deleter get_invoke_deleter)
    with False w' show ?thesis by simp
  qed
qed

lemma single_owner_assign_ref:
  assumes "single_owner w" "assign_ref this ref w = Some w'"
    and "ref_m_ptr ref = NULL \<or> (\<forall>i. get i w = Some (ref_m_ptr ref) \<longrightarrow> i = this)"
  shows "single_owner w'"
proof -
  have "assign_ref this ref w = reset this (ref_m_ptr ref) w"
    by (simp add: assign_ref_alt reset_alt)
  with assms show ?thesis by (simp add: single_owner_reset)
qed

lemma single_owner_destructor:
  assumes "single_owner w" "destructor this w = Some w'"
  shows "single_owner w'"
  using assms
  by (auto simp: destructor_alt single_owner_end_lifetime single_owner_invoke_deleter
      split: option.splits)

lemma single_owner_assign:
  assumes "single_owner w" "assign this a w = Some w'"
  shows "single_owner w'"
proof -
  from assms(2) obtain p where p: "get a w = Some p"
    and r: "reset this p (set_m_ptr a NULL w) = Some w'"
    by (auto simp: assign_alt split: option.splits)
  have s: "single_owner (set_m_ptr a NULL w)"
    using assms(1) p by (simp add: single_owner_release)
  have u: "p = NULL \<or> (\<forall>i. get i (set_m_ptr a NULL w) = Some p \<longrightarrow> i = this)"
    using unheld_after_release [OF assms(1) p] by blast
  show ?thesis by (rule single_owner_reset [OF s r u])
qed

lemma single_owner_move:
  assumes "single_owner w" "move arg w = Some (r, w')"
  shows "single_owner w'"
proof -
  from assms(2) obtain p v w1 w2 w3 where
    c1: "unique_ptr_base_copy arg w = Some (v, w1)" and
    c2: "unique_ptr_base_copy v w1 = Some (r, w2)" and
    d: "destructor v w2 = Some w3" and w': "w' = w3"
    by (auto simp: move_def split: option.splits)
  have copy: "single_owner u'" if "single_owner u" "unique_ptr_base_copy a u = Some (b, u')"
    for a b u u'
    using that by (auto simp: unique_ptr_base_copy_alt single_owner_transfer_new split: option.splits)
  from copy [OF assms(1) c1] have "single_owner w1" .
  from copy [OF this c2] have "single_owner w2" .
  from single_owner_destructor [OF this d] w' show ?thesis by simp
qed

text \<open>
  In the store the conversion operator does what \<open>move\<close> does: the address goes from the
  source into a first new instance, from there into a second, and the first is destroyed.
\<close>

lemma operator_unique_ptr_base_as_move: "operator_unique_ptr_base a w = move a w"
  by (simp add: operator_unique_ptr_base_alt move_alt)

lemma exec_single_owner:
  assumes "single_owner w" "supplies_unheld x w" "exec x w = Some w'"
  shows "single_owner w'"
proof (cases x)
  case (Construct p)
  with assms show ?thesis
    by (auto simp: holders_Nil unique_ptr_base_alt intro!: single_owner_new_instance)
next
  case (ConstructFrom a)
  with assms show ?thesis
    by (auto simp: unique_ptr_base_copy_alt single_owner_transfer_new split: option.splits)
next
  case (AssignFrom this a)
  with assms show ?thesis by (auto intro: single_owner_assign)
next
  case (AssignNull this)
  with assms show ?thesis by (auto simp: assign_null_def intro: single_owner_reset)
next
  case (Get this)
  with assms show ?thesis by auto
next
  case (BoolTest this)
  with assms show ?thesis by auto
next
  case (Release this)
  with assms show ?thesis
    by (auto simp: release_def single_owner_release split: option.splits)
next
  case (Reset this p)
  with assms show ?thesis
    by (auto simp: holders_only intro: single_owner_reset)
next
  case (Destroy this)
  with assms show ?thesis by (auto intro: single_owner_destructor)
next
  case (Convert a)
  with assms show ?thesis
    by (auto simp: operator_unique_ptr_base_as_move intro: single_owner_move)
next
  case (ConvertConstruct a)
  with assms show ?thesis
    by (auto simp: operator_unique_ptr_base_ref_alt unique_ptr_base_from_ref_alt
        single_owner_transfer_new split: option.splits)
next
  case (ConvertAssign this a)
  with assms obtain p where p: "get a w = Some p"
    and r: "assign_ref this (unique_ptr_base_ref p) (set_m_ptr a NULL w) = Some w'"
    by (auto simp: operator_unique_ptr_base_ref_alt split: option.splits)
  have s: "single_owner (set_m_ptr a NULL w)"
    using assms(1) p by (simp add: single_owner_release)
  have u: "ref_m_ptr (unique_ptr_base_ref p) = NULL \<or>
      (\<forall>i. get i (set_m_ptr a NULL w) = Some (ref_m_ptr (unique_ptr_base_ref p)) \<longrightarrow> i = this)"
    using unheld_after_release [OF assms(1) p] by auto
  show ?thesis by (rule single_owner_assign_ref [OF s r u])
next
  case (Move a)
  with assms show ?thesis by (auto intro: single_owner_move)
qed

subsection \<open>Sequences of operations\<close>

lemma states_single_owner:
  "single_owner w \<Longrightarrow> client_ok ops w \<Longrightarrow> states ops w = Some ws \<Longrightarrow> list_all single_owner ws"
proof (induction ops arbitrary: w ws)
  case Nil
  then show ?case by auto
next
  case (Cons x xs)
  from Cons.prems(3) obtain w' ws' where
    e: "exec x w = Some w'" and s: "states xs w' = Some ws'" and ws: "ws = ws' @ [w]"
    by (auto split: option.splits)
  from Cons.prems(2) e have ok: "supplies_unheld x w" "client_ok xs w'" by simp_all
  have "single_owner w'" by (rule exec_single_owner [OF Cons.prems(1) ok(1) e])
  from Cons.IH [OF this ok(2) s] ws Cons.prems(1) show ?case by simp
qed








subsection \<open>release\<close>

text \<open>
  Claim C5. For an instance \<open>obj\<close> holding the address \<open>p\<close>, \<open>obj.release ()\<close> returns \<open>p\<close>,
  afterwards \<open>obj.get ()\<close> is NULL, and \<open>release\<close> has not invoked the deleter at all: the
  record of deleter invocations is the same as before.
\<close>

theorem release_transfers_without_destroying:
  assumes "get obj w = Some p"
  shows "\<exists>w'. release obj w = Some (p, w') \<and> get obj w' = Some NULL \<and> calls w' = calls w"
  using assms get_Some_less [OF assms]
  by (simp add: release_def get_set_m_ptr calls_set_m_ptr)

theorem release_transfers_without_destroying_witness:
  "get 0 \<lparr>objs = [Some 7], calls = []\<rparr> = Some 7 \<and>
   (\<exists>w'. release 0 \<lparr>objs = [Some 7], calls = []\<rparr> = Some (7, w') \<and>
         get 0 w' = Some NULL \<and> calls w' = calls \<lparr>objs = [Some 7], calls = []\<rparr>)"
proof -
  have h: "get 0 \<lparr>objs = [Some 7], calls = []\<rparr> = Some 7"
    by (simp add: get_def)
  show ?thesis
    using h release_transfers_without_destroying [OF h] by simp
qed

subsection \<open>Transfer of ownership\<close>

text \<open>
  Claim C1. Let \<open>a\<close> hold the address \<open>x\<close>, null or not. Constructing a new instance \<open>b\<close>
  from \<open>a\<close> leaves \<open>a.get ()\<close> null and \<open>b.get ()\<close> equal to \<open>x\<close>; so does assigning \<open>a\<close> to
  any other live instance \<open>b\<close>, whatever \<open>b\<close> held. The address is handed over, it is
  never in both, and no third instance changes what it holds.
\<close>

theorem transfer_on_copy_and_assignment:
  assumes "get a w = Some x"
  shows "(\<exists>b w'. unique_ptr_base_copy a w = Some (b, w') \<and> get b w = None \<and>
                 get a w' = Some NULL \<and> get b w' = Some x \<and>
                 (\<forall>i. i \<noteq> a \<and> i \<noteq> b \<longrightarrow> get i w' = get i w)) \<and>
         (\<forall>b m. b \<noteq> a \<and> get b w = Some m \<longrightarrow>
                (\<exists>w'. assign b a w = Some w' \<and> get a w' = Some NULL \<and> get b w' = Some x \<and>
                      (\<forall>i. i \<noteq> a \<and> i \<noteq> b \<longrightarrow> get i w' = get i w)))"
proof -
  have la: "get a w \<noteq> None" using assms by simp
  have "unique_ptr_base_copy a w =
          Some (length (objs w), snd (new_instance x (set_m_ptr a NULL w)))"
    using assms by (simp add: unique_ptr_base_copy_alt)
  moreover have "a \<noteq> length (objs w)"
    using get_Some_less [OF assms] by simp
  ultimately have copy: "\<exists>b w'. unique_ptr_base_copy a w = Some (b, w') \<and> get b w = None \<and>
                 get a w' = Some NULL \<and> get b w' = Some x \<and>
                 (\<forall>i. i \<noteq> a \<and> i \<noteq> b \<longrightarrow> get i w' = get i w)"
    using la by (simp add: get_new_instance get_set_m_ptr_live length_set_m_ptr get_fresh)
  have asg: "\<exists>w'. assign b a w = Some w' \<and> get a w' = Some NULL \<and> get b w' = Some x \<and>
                 (\<forall>i. i \<noteq> a \<and> i \<noteq> b \<longrightarrow> get i w' = get i w)"
    if "b \<noteq> a" "get b w = Some m" for b m
    using that assms
    by (simp add: assign_alt reset_alt get_set_m_ptr_live get_invoke_deleter)
  from copy asg show ?thesis by blast
qed

theorem transfer_on_copy_and_assignment_witness:
  "get 0 \<lparr>objs = [Some 5, Some 6], calls = []\<rparr> = Some 5 \<and>
   unique_ptr_base_copy 0 \<lparr>objs = [Some 5, Some 6], calls = []\<rparr> =
     Some (2, \<lparr>objs = [Some NULL, Some 6, Some 5], calls = []\<rparr>) \<and>
   assign 1 0 \<lparr>objs = [Some 5, Some 6], calls = []\<rparr> =
     Some \<lparr>objs = [Some NULL, Some 5], calls = [6]\<rparr> \<and>
   (\<exists>b w'. unique_ptr_base_copy 0 \<lparr>objs = [Some 5, Some 6], calls = []\<rparr> = Some (b, w') \<and>
           get b \<lparr>objs = [Some 5, Some 6], calls = []\<rparr> = None \<and>
           get 0 w' = Some NULL \<and> get b w' = Some 5) \<and>
   (\<exists>w'. assign 1 0 \<lparr>objs = [Some 5, Some 6], calls = []\<rparr> = Some w' \<and>
         get 0 w' = Some NULL \<and> get 1 w' = Some 5)"
proof -
  let ?W = "\<lparr>objs = [Some 5, Some 6], calls = []\<rparr>"
  have h: "get 0 ?W = Some 5" by (simp add: get_def)
  have g: "(1::nat) \<noteq> 0 \<and> get 1 ?W = Some 6" by (simp add: get_def)
  have c: "unique_ptr_base_copy 0 ?W = Some (2, \<lparr>objs = [Some NULL, Some 6, Some 5], calls = []\<rparr>)"
    by code_simp
  have a: "assign 1 0 ?W = Some \<lparr>objs = [Some NULL, Some 5], calls = [6]\<rparr>"
    by code_simp
  from transfer_on_copy_and_assignment [OF h] g h c a show ?thesis by blast
qed

subsection \<open>reset to the address already held\<close>

text \<open>
  Claim C4. When an instance holds \<open>x\<close>, \<open>reset (x)\<close> returns with the store as it was: the
  deleter has not been invoked and the instance still holds \<open>x\<close>. With \<open>x\<close> null this is
  \<open>reset ()\<close> on an instance that owns nothing.
\<close>

theorem reset_to_held_address:
  assumes "get this w = Some x"
  shows "\<exists>w'. reset this x w = Some w' \<and> calls w' = calls w \<and> get this w' = Some x \<and> w' = w"
  using assms by (simp add: reset_def)

theorem reset_to_held_address_witness:
  "get 0 \<lparr>objs = [Some NULL, Some 4], calls = [9]\<rparr> = Some NULL \<and>
   get 1 \<lparr>objs = [Some NULL, Some 4], calls = [9]\<rparr> = Some 4 \<and>
   (\<exists>w'. reset 0 NULL \<lparr>objs = [Some NULL, Some 4], calls = [9]\<rparr> = Some w' \<and>
         calls w' = calls \<lparr>objs = [Some NULL, Some 4], calls = [9]\<rparr> \<and>
         get 0 w' = Some NULL \<and> w' = \<lparr>objs = [Some NULL, Some 4], calls = [9]\<rparr>) \<and>
   (\<exists>w'. reset 1 4 \<lparr>objs = [Some NULL, Some 4], calls = [9]\<rparr> = Some w' \<and>
         calls w' = calls \<lparr>objs = [Some NULL, Some 4], calls = [9]\<rparr> \<and>
         get 1 w' = Some 4 \<and> w' = \<lparr>objs = [Some NULL, Some 4], calls = [9]\<rparr>)"
proof -
  let ?W = "\<lparr>objs = [Some NULL, Some 4], calls = [9]\<rparr>"
  have h0: "get 0 ?W = Some NULL" by (simp add: get_def)
  have h1: "get 1 ?W = Some 4" by (simp add: get_def)
  from reset_to_held_address [OF h0] reset_to_held_address [OF h1] h0 h1
  show ?thesis by blast
qed

subsection \<open>The boolean test\<close>

text \<open>
  Claim C6. The boolean test of a live instance is true exactly when the address it holds
  is not null. A default-constructed instance tests false, an instance constructed with a
  non-null address tests true, and after \<open>release ()\<close> or \<open>reset ()\<close> an instance tests
  false.
\<close>

theorem bool_test_iff_owning:
  "(get this w = Some m \<longrightarrow> bool_test this w = Some (m \<noteq> NULL)) \<and>
   (case unique_ptr_base NULL w of (u, w') \<Rightarrow> bool_test u w' = Some False) \<and>
   (p \<noteq> NULL \<longrightarrow> (case unique_ptr_base p w of (u, w') \<Rightarrow> bool_test u w' = Some True)) \<and>
   (get this w = Some m \<longrightarrow>
      (\<exists>w'. release this w = Some (m, w') \<and> bool_test this w' = Some False)) \<and>
   (get this w = Some m \<longrightarrow>
      (\<exists>w'. reset this NULL w = Some w' \<and> bool_test this w' = Some False))"
proof -
  have t: "bool_test i v = Some (q \<noteq> NULL)" if "get i v = Some q" for i v q
    using that by (simp add: bool_test_alt)
  have c: "bool_test (fst (unique_ptr_base q w)) (snd (unique_ptr_base q w)) = Some (q \<noteq> NULL)"
    for q
    by (rule t) (simp add: unique_ptr_base_alt get_new_instance)
  have rel: "\<exists>w'. release this w = Some (m, w') \<and> bool_test this w' = Some False"
    if "get this w = Some m"
    using that by (simp add: release_def bool_test_alt get_set_m_ptr_live)
  have res: "\<exists>w'. reset this NULL w = Some w' \<and> bool_test this w' = Some False"
    if "get this w = Some m"
    using that by (simp add: reset_alt bool_test_alt get_set_m_ptr_live get_invoke_deleter)
  from t [of this w m] c [of NULL] c [of p] rel res show ?thesis
    by (simp add: case_prod_beta)
qed

theorem bool_test_iff_owning_witness:
  "get 0 \<lparr>objs = [Some 5], calls = []\<rparr> = Some 5 \<and> (5::nat) \<noteq> NULL \<and>
   bool_test 0 \<lparr>objs = [Some 5], calls = []\<rparr> = Some True \<and>
   (case unique_ptr_base NULL \<lparr>objs = [Some 5], calls = []\<rparr> of
      (u, w') \<Rightarrow> bool_test u w' = Some False) \<and>
   (case unique_ptr_base 5 \<lparr>objs = [Some 5], calls = []\<rparr> of
      (u, w') \<Rightarrow> bool_test u w' = Some True) \<and>
   (\<exists>w'. release 0 \<lparr>objs = [Some 5], calls = []\<rparr> = Some (5, w') \<and>
         bool_test 0 w' = Some False) \<and>
   (\<exists>w'. reset 0 NULL \<lparr>objs = [Some 5], calls = []\<rparr> = Some w' \<and>
         bool_test 0 w' = Some False)"
proof -
  let ?W = "\<lparr>objs = [Some 5], calls = []\<rparr>"
  have h: "get 0 ?W = Some 5" by (simp add: get_def)
  have n: "(5::nat) \<noteq> NULL" by (simp add: NULL_def)
  from bool_test_iff_owning [of 0 ?W 5 5] h n show ?thesis by simp
qed

subsection \<open>Assignment from an instance that refers to the same address\<close>

text \<open>
  Claim C7, as stated, fails: the assignment is not a no-op. In a self-assignment of an
  instance that holds the non-null address 5, \<open>release\<close> has stored NULL by the time
  \<open>reset\<close> compares, so the deleter is invoked, on NULL, before 5 is stored back. Between
  two instances that both hold 5, \<open>other\<close> is left holding NULL.
\<close>

theorem assign_same_address_counterexample:
  "get 0 \<lparr>objs = [Some 5], calls = []\<rparr> = Some 5 \<and>
   assign 0 0 \<lparr>objs = [Some 5], calls = []\<rparr> = Some \<lparr>objs = [Some 5], calls = [NULL]\<rparr> \<and>
   \<lparr>objs = [Some 5], calls = [NULL]\<rparr> \<noteq> \<lparr>objs = [Some 5], calls = []\<rparr> \<and>
   get 1 \<lparr>objs = [Some 5, Some 5], calls = []\<rparr> = Some 5 \<and>
   get 0 \<lparr>objs = [Some 5, Some 5], calls = []\<rparr> = Some 5 \<and>
   assign 1 0 \<lparr>objs = [Some 5, Some 5], calls = []\<rparr> =
     Some \<lparr>objs = [Some NULL, Some 5], calls = []\<rparr> \<and>
   \<lparr>objs = [Some NULL, Some 5], calls = []\<rparr> \<noteq> \<lparr>objs = [Some 5, Some 5], calls = []\<rparr>"
  by code_simp

text \<open>
  Claim C7, amended. When \<open>other\<close> holds the same address \<open>x\<close> as \<open>this\<close> (they may be one
  and the same instance), \<open>this = other\<close> leaves \<open>this\<close> holding \<open>x\<close> and does not invoke the
  deleter on \<open>x\<close>. It is not a no-op. Between two instances the deleter is not invoked at
  all and \<open>other\<close> is left holding NULL. In a self-assignment with a non-null \<open>x\<close> the
  deleter is invoked once, on NULL, which frees nothing with \<^verbatim>\<open>default_delete\<close>. No
  instance other than \<open>other\<close> changes what it holds.
\<close>

theorem assign_same_address:
  assumes "get this w = Some x" "get other w = Some x"
  shows "\<exists>w'. assign this other w = Some w' \<and> get this w' = Some x \<and>
              count_list (calls w') x = count_list (calls w) x \<and>
              calls w' = (if this = other \<and> x \<noteq> NULL then calls w @ [NULL] else calls w) \<and>
              freed w' = freed w \<and>
              (\<forall>i. get i w' = (if i = other \<and> i \<noteq> this then Some NULL else get i w))"
proof (cases "this = other")
  case True
  with assms show ?thesis
    by (simp add: assign_alt reset_alt get_set_m_ptr_live get_invoke_deleter
        calls_set_m_ptr calls_invoke_deleter freed_def default_delete_def)
next
  case False
  with assms show ?thesis
    by (simp add: assign_alt reset_alt get_set_m_ptr_live calls_set_m_ptr freed_def)
qed

theorem assign_same_address_witness:
  "get 0 \<lparr>objs = [Some 5, Some 5], calls = []\<rparr> = Some 5 \<and>
   get 1 \<lparr>objs = [Some 5, Some 5], calls = []\<rparr> = Some 5 \<and>
   assign 0 0 \<lparr>objs = [Some 5, Some 5], calls = []\<rparr> =
     Some \<lparr>objs = [Some 5, Some 5], calls = [NULL]\<rparr> \<and>
   assign 1 0 \<lparr>objs = [Some 5, Some 5], calls = []\<rparr> =
     Some \<lparr>objs = [Some NULL, Some 5], calls = []\<rparr> \<and>
   (\<exists>w'. assign 0 0 \<lparr>objs = [Some 5, Some 5], calls = []\<rparr> = Some w' \<and> get 0 w' = Some 5 \<and>
         count_list (calls w') 5 = count_list (calls \<lparr>objs = [Some 5, Some 5], calls = []\<rparr>) 5) \<and>
   (\<exists>w'. assign 1 0 \<lparr>objs = [Some 5, Some 5], calls = []\<rparr> = Some w' \<and> get 1 w' = Some 5 \<and>
         count_list (calls w') 5 = count_list (calls \<lparr>objs = [Some 5, Some 5], calls = []\<rparr>) 5)"
proof -
  let ?W = "\<lparr>objs = [Some 5, Some 5], calls = []\<rparr>"
  have h0: "get 0 ?W = Some 5" by (simp add: get_def)
  have h1: "get 1 ?W = Some 5" by (simp add: get_def)
  have a: "assign 0 0 ?W = Some \<lparr>objs = [Some 5, Some 5], calls = [NULL]\<rparr>" by code_simp
  have b: "assign 1 0 ?W = Some \<lparr>objs = [Some NULL, Some 5], calls = []\<rparr>" by code_simp
  from assign_same_address [OF h0 h0] assign_same_address [OF h1 h0] h0 h1 a b
  show ?thesis by blast
qed

subsection \<open>Conversion between pointee types\<close>

lemma conversion_result:
  assumes "get d w = Some X"
  shows "\<exists>t w1. operator_unique_ptr_base d w = Some (t, w1) \<and> t \<noteq> d \<and> get t w = None \<and>
               get t w1 = Some X \<and> get d w1 = Some NULL \<and> calls w1 = calls w @ [NULL] \<and>
               get (length (objs w1)) w = None \<and>
               (\<forall>b Y. b \<noteq> d \<and> get b w = Some Y \<longrightarrow> b \<noteq> t \<and> get b w1 = Some Y)"
proof -
  let ?n = "length (objs w)"
  have lt: "d < ?n" by (rule get_Some_less [OF assms])
  then have ne: "d \<noteq> ?n" "d \<noteq> Suc ?n" by simp_all
  have un: "get (Suc ?n) w = None" "get (Suc (Suc ?n)) w = None" by (simp_all add: get_def)
  have other: "b \<noteq> ?n \<and> b \<noteq> Suc ?n" if "get b w = Some Y" for b Y
    using get_Some_less [OF that] by simp
  from assms lt ne un other show ?thesis
    by (auto simp: operator_unique_ptr_base_alt store_simps)
qed

text \<open>
  Claim C8. Let \<open>d\<close> hold a non-null address \<open>X\<close>. Converting \<open>d\<close> with
  \<^verbatim>\<open>operator unique_ptr_base<T1, D1>\<close> gives a new instance \<open>b\<close> of the destination type
  with \<open>b.get () = X\<close> and leaves \<open>d.get ()\<close> null. The same holds when the instance the
  conversion returns is a temporary \<open>t\<close> from which a named \<open>b\<close> is constructed, or to
  which an existing \<open>b\<close> is assigned, through the \<^verbatim>\<open>unique_ptr_base_ref\<close> of the destination
  type, \<open>t\<close> being destroyed afterwards. In none of the three is the deleter invoked on
  \<open>X\<close>: it is invoked on NULL, when an emptied temporary is destroyed, and in the
  assignment on what \<open>b\<close> held before, if that differs from \<open>X\<close>.
\<close>

theorem conversion_moves_address:
  assumes "get d w = Some X" "X \<noteq> NULL"
  shows "(\<exists>b w'. operator_unique_ptr_base d w = Some (b, w') \<and> get b w = None \<and>
                 get b w' = Some X \<and> get d w' = Some NULL \<and>
                 calls w' = calls w @ [NULL] \<and>
                 count_list (calls w') X = count_list (calls w) X) \<and>
         (\<exists>t w1 ref w2 b w3 w'.
                 operator_unique_ptr_base d w = Some (t, w1) \<and>
                 operator_unique_ptr_base_ref t w1 = Some (ref, w2) \<and>
                 unique_ptr_base_from_ref ref w2 = (b, w3) \<and>
                 destructor t w3 = Some w' \<and> get b w = None \<and>
                 get b w' = Some X \<and> get d w' = Some NULL \<and>
                 calls w' = calls w @ [NULL, NULL] \<and>
                 count_list (calls w') X = count_list (calls w) X) \<and>
         (\<forall>b Y. b \<noteq> d \<and> get b w = Some Y \<longrightarrow>
            (\<exists>t w1 ref w2 w3 w'.
                 operator_unique_ptr_base d w = Some (t, w1) \<and>
                 operator_unique_ptr_base_ref t w1 = Some (ref, w2) \<and>
                 assign_ref b ref w2 = Some w3 \<and>
                 destructor t w3 = Some w' \<and>
                 get b w' = Some X \<and> get d w' = Some NULL \<and>
                 calls w' = calls w @ [NULL] @ (if X \<noteq> Y then [Y] else []) @ [NULL] \<and>
                 count_list (calls w') X = count_list (calls w) X))"
proof -
  from conversion_result [OF assms(1)] obtain t w1 where
    c: "operator_unique_ptr_base d w = Some (t, w1)" and td: "t \<noteq> d" and
    tw: "get t w = None" and t1: "get t w1 = Some X" and d1: "get d w1 = Some NULL" and
    k1: "calls w1 = calls w @ [NULL]" and fr: "get (length (objs w1)) w = None" and
    ot: "\<And>b Y. b \<noteq> d \<Longrightarrow> get b w = Some Y \<Longrightarrow> b \<noteq> t \<and> get b w1 = Some Y"
    by blast
  have lt: "get t w1 \<noteq> None" using t1 by simp
  have tl: "t \<noteq> length (objs w1)" "d \<noteq> length (objs w1)"
    using get_Some_less [OF t1] get_Some_less [OF d1] by simp_all
  let ?w2 = "set_m_ptr t NULL w1"
  have r: "operator_unique_ptr_base_ref t w1 = Some (unique_ptr_base_ref X, ?w2)"
    using t1 by (simp add: operator_unique_ptr_base_ref_alt)
  have direct: "\<exists>b w'. operator_unique_ptr_base d w = Some (b, w') \<and> get b w = None \<and>
                 get b w' = Some X \<and> get d w' = Some NULL \<and>
                 calls w' = calls w @ [NULL] \<and>
                 count_list (calls w') X = count_list (calls w) X"
    using c tw t1 d1 k1 assms(2) by simp
  have named: "\<exists>t w1 ref w2 b w3 w'.
                 operator_unique_ptr_base d w = Some (t, w1) \<and>
                 operator_unique_ptr_base_ref t w1 = Some (ref, w2) \<and>
                 unique_ptr_base_from_ref ref w2 = (b, w3) \<and>
                 destructor t w3 = Some w' \<and> get b w = None \<and>
                 get b w' = Some X \<and> get d w' = Some NULL \<and>
                 calls w' = calls w @ [NULL, NULL] \<and>
                 count_list (calls w') X = count_list (calls w) X"
  proof -
    let ?b = "length (objs w1)"
    let ?w3 = "snd (new_instance X ?w2)"
    let ?w' = "end_lifetime t (invoke_deleter NULL ?w3)"
    have n: "unique_ptr_base_from_ref (unique_ptr_base_ref X) ?w2 = (?b, ?w3)"
      by (simp add: unique_ptr_base_from_ref_alt length_set_m_ptr)
    have g3: "get t ?w3 = Some NULL"
      using lt tl by (simp add: get_new_instance get_set_m_ptr_live length_set_m_ptr)
    have dt: "destructor t ?w3 = Some ?w'"
      using g3 by (simp add: destructor_alt)
    have gb: "get ?b ?w' = Some X"
      using tl by (simp add: get_end_lifetime get_invoke_deleter get_new_instance length_set_m_ptr)
    have gd: "get d ?w' = Some NULL"
      using tl td lt d1
      by (simp add: get_end_lifetime get_invoke_deleter get_new_instance length_set_m_ptr
          get_set_m_ptr_live)
    have k: "calls ?w' = calls w @ [NULL, NULL]"
      using k1
      by (simp add: calls_end_lifetime calls_invoke_deleter calls_new_instance calls_set_m_ptr)
    have "count_list (calls ?w') X = count_list (calls w) X"
      using k assms(2) by simp
    with c r n dt fr gb gd k show ?thesis by blast
  qed
  have asg: "\<exists>t w1 ref w2 w3 w'.
                 operator_unique_ptr_base d w = Some (t, w1) \<and>
                 operator_unique_ptr_base_ref t w1 = Some (ref, w2) \<and>
                 assign_ref b ref w2 = Some w3 \<and>
                 destructor t w3 = Some w' \<and>
                 get b w' = Some X \<and> get d w' = Some NULL \<and>
                 calls w' = calls w @ [NULL] @ (if X \<noteq> Y then [Y] else []) @ [NULL] \<and>
                 count_list (calls w') X = count_list (calls w) X"
    if bd: "b \<noteq> d" and bw: "get b w = Some Y" for b Y
  proof -
    from ot [OF bd bw] have bt: "b \<noteq> t" and b1: "get b w1 = Some Y" by simp_all
    let ?w3 = "if X \<noteq> Y then set_m_ptr b X (invoke_deleter Y ?w2) else ?w2"
    let ?w' = "end_lifetime t (invoke_deleter NULL ?w3)"
    have b2: "get b ?w2 = Some Y"
      using bt lt b1 by (simp add: get_set_m_ptr_live)
    have a: "assign_ref b (unique_ptr_base_ref X) ?w2 = Some ?w3"
      using b2 by (simp add: assign_ref_alt)
    have g3: "get t ?w3 = Some NULL"
      using bt lt b2 by (simp add: get_set_m_ptr_live get_invoke_deleter)
    have dt: "destructor t ?w3 = Some ?w'"
      using g3 by (simp add: destructor_alt)
    have gb: "get b ?w' = Some X"
      using bt b2 by (simp add: get_end_lifetime get_invoke_deleter get_set_m_ptr_live)
    have gd: "get d ?w' = Some NULL"
      using td bd lt b2 d1
      by (simp add: get_end_lifetime get_invoke_deleter get_set_m_ptr_live)
    have k: "calls ?w' = calls w @ [NULL] @ (if X \<noteq> Y then [Y] else []) @ [NULL]"
      using k1
      by (simp add: calls_end_lifetime calls_invoke_deleter calls_set_m_ptr)
    have "count_list (calls ?w') X = count_list (calls w) X"
      using k assms(2) by simp
    with c r a dt gb gd k show ?thesis by blast
  qed
  from direct named asg show ?thesis by blast
qed

theorem conversion_moves_address_witness:
  "get 0 \<lparr>objs = [Some 5, Some 6], calls = []\<rparr> = Some 5 \<and> (5::nat) \<noteq> NULL \<and>
   (1::nat) \<noteq> 0 \<and> get 1 \<lparr>objs = [Some 5, Some 6], calls = []\<rparr> = Some 6 \<and>
   operator_unique_ptr_base 0 \<lparr>objs = [Some 5, Some 6], calls = []\<rparr> =
     Some (3, \<lparr>objs = [Some NULL, Some 6, None, Some 5], calls = [NULL]\<rparr>) \<and>
   operator_unique_ptr_base_ref 3 \<lparr>objs = [Some NULL, Some 6, None, Some 5], calls = [NULL]\<rparr> =
     Some (unique_ptr_base_ref 5,
           \<lparr>objs = [Some NULL, Some 6, None, Some NULL], calls = [NULL]\<rparr>) \<and>
   unique_ptr_base_from_ref (unique_ptr_base_ref 5)
       \<lparr>objs = [Some NULL, Some 6, None, Some NULL], calls = [NULL]\<rparr> =
     (4, \<lparr>objs = [Some NULL, Some 6, None, Some NULL, Some 5], calls = [NULL]\<rparr>) \<and>
   destructor 3 \<lparr>objs = [Some NULL, Some 6, None, Some NULL, Some 5], calls = [NULL]\<rparr> =
     Some \<lparr>objs = [Some NULL, Some 6, None, None, Some 5], calls = [NULL, NULL]\<rparr> \<and>
   assign_ref 1 (unique_ptr_base_ref 5)
       \<lparr>objs = [Some NULL, Some 6, None, Some NULL], calls = [NULL]\<rparr> =
     Some \<lparr>objs = [Some NULL, Some 5, None, Some NULL], calls = [NULL, 6]\<rparr> \<and>
   destructor 3 \<lparr>objs = [Some NULL, Some 5, None, Some NULL], calls = [NULL, 6]\<rparr> =
     Some \<lparr>objs = [Some NULL, Some 5, None, None], calls = [NULL, 6, NULL]\<rparr> \<and>
   (\<exists>b w'. operator_unique_ptr_base 0 \<lparr>objs = [Some 5, Some 6], calls = []\<rparr> = Some (b, w') \<and>
           get b \<lparr>objs = [Some 5, Some 6], calls = []\<rparr> = None \<and>
           get b w' = Some 5 \<and> get 0 w' = Some NULL \<and>
           calls w' = calls \<lparr>objs = [Some 5, Some 6], calls = []\<rparr> @ [NULL] \<and>
           count_list (calls w') 5 =
             count_list (calls \<lparr>objs = [Some 5, Some 6], calls = []\<rparr>) 5) \<and>
   (\<exists>t w1 ref w2 b w3 w'.
           operator_unique_ptr_base 0 \<lparr>objs = [Some 5, Some 6], calls = []\<rparr> = Some (t, w1) \<and>
           operator_unique_ptr_base_ref t w1 = Some (ref, w2) \<and>
           unique_ptr_base_from_ref ref w2 = (b, w3) \<and>
           destructor t w3 = Some w' \<and>
           get b \<lparr>objs = [Some 5, Some 6], calls = []\<rparr> = None \<and>
           get b w' = Some 5 \<and> get 0 w' = Some NULL \<and>
           calls w' = calls \<lparr>objs = [Some 5, Some 6], calls = []\<rparr> @ [NULL, NULL] \<and>
           count_list (calls w') 5 =
             count_list (calls \<lparr>objs = [Some 5, Some 6], calls = []\<rparr>) 5) \<and>
   (\<exists>t w1 ref w2 w3 w'.
           operator_unique_ptr_base 0 \<lparr>objs = [Some 5, Some 6], calls = []\<rparr> = Some (t, w1) \<and>
           operator_unique_ptr_base_ref t w1 = Some (ref, w2) \<and>
           assign_ref 1 ref w2 = Some w3 \<and>
           destructor t w3 = Some w' \<and>
           get 1 w' = Some 5 \<and> get 0 w' = Some NULL \<and>
           count_list (calls w') 5 =
             count_list (calls \<lparr>objs = [Some 5, Some 6], calls = []\<rparr>) 5)"
proof -
  let ?W = "\<lparr>objs = [Some 5, Some 6], calls = []\<rparr>"
  let ?W1 = "\<lparr>objs = [Some NULL, Some 6, None, Some 5], calls = [NULL]\<rparr>"
  let ?W2 = "\<lparr>objs = [Some NULL, Some 6, None, Some NULL], calls = [NULL]\<rparr>"
  have h: "get 0 ?W = Some 5" by (simp add: get_def)
  have n: "(5::nat) \<noteq> NULL" by (simp add: NULL_def)
  have g: "(1::nat) \<noteq> 0 \<and> get 1 ?W = Some 6" by (simp add: get_def)
  have e1: "operator_unique_ptr_base 0 ?W = Some (3, ?W1)" by code_simp
  have e2: "operator_unique_ptr_base_ref 3 ?W1 = Some (unique_ptr_base_ref 5, ?W2)"
    by code_simp
  have e3: "unique_ptr_base_from_ref (unique_ptr_base_ref 5) ?W2 =
     (4, \<lparr>objs = [Some NULL, Some 6, None, Some NULL, Some 5], calls = [NULL]\<rparr>)"
    by code_simp
  have e4: "destructor 3 \<lparr>objs = [Some NULL, Some 6, None, Some NULL, Some 5], calls = [NULL]\<rparr> =
     Some \<lparr>objs = [Some NULL, Some 6, None, None, Some 5], calls = [NULL, NULL]\<rparr>"
    by code_simp
  have e5: "assign_ref 1 (unique_ptr_base_ref 5) ?W2 =
     Some \<lparr>objs = [Some NULL, Some 5, None, Some NULL], calls = [NULL, 6]\<rparr>"
    by code_simp
  have e6: "destructor 3 \<lparr>objs = [Some NULL, Some 5, None, Some NULL], calls = [NULL, 6]\<rparr> =
     Some \<lparr>objs = [Some NULL, Some 5, None, None], calls = [NULL, 6, NULL]\<rparr>"
    by code_simp
  note conv = conversion_moves_address [OF h n]
  from conv have
    c1: "\<exists>b w'. operator_unique_ptr_base 0 ?W = Some (b, w') \<and> get b ?W = None \<and>
           get b w' = Some 5 \<and> get 0 w' = Some NULL \<and>
           calls w' = calls ?W @ [NULL] \<and>
           count_list (calls w') 5 = count_list (calls ?W) 5"
    by (rule conjunct1)
  from conv have
    c2: "\<exists>t w1 ref w2 b w3 w'.
           operator_unique_ptr_base 0 ?W = Some (t, w1) \<and>
           operator_unique_ptr_base_ref t w1 = Some (ref, w2) \<and>
           unique_ptr_base_from_ref ref w2 = (b, w3) \<and>
           destructor t w3 = Some w' \<and> get b ?W = None \<and>
           get b w' = Some 5 \<and> get 0 w' = Some NULL \<and>
           calls w' = calls ?W @ [NULL, NULL] \<and>
           count_list (calls w') 5 = count_list (calls ?W) 5"
    by (rule conjunct1 [OF conjunct2])
  from conv g have
    c3: "\<exists>t w1 ref w2 w3 w'.
           operator_unique_ptr_base 0 ?W = Some (t, w1) \<and>
           operator_unique_ptr_base_ref t w1 = Some (ref, w2) \<and>
           assign_ref 1 ref w2 = Some w3 \<and>
           destructor t w3 = Some w' \<and>
           get 1 w' = Some 5 \<and> get 0 w' = Some NULL \<and>
           count_list (calls w') 5 = count_list (calls ?W) 5"
    by blast
  from c1 c2 c3 h n g e1 e2 e3 e4 e5 e6 show ?thesis by simp
qed

subsection \<open>Comparison through the safe bool conversion\<close>

text \<open>
  Claim C9. Where \<^verbatim>\<open>operator==\<close> and \<^verbatim>\<open>operator!=\<close> on two \<^verbatim>\<open>safe_bool\<close> operands compile
  at all, both return false for every pair of operands, whether the operands are
  true or false in a condition.
\<close>

theorem safe_bool_comparisons_false:
  "safe_bool_eq lhs rhs = False \<and> safe_bool_ne lhs rhs = False"
  by (simp add: safe_bool_eq_def safe_bool_ne_def Let_def)

subsection \<open>Single ownership over a sequence of operations\<close>

text \<open>
  Claim C2, as stated, fails: the constructor and \<open>reset\<close> take any raw address, so a
  client can hand the same non-null address to two instances. Constructing two instances
  from the address 1 leaves both holding it.
\<close>

theorem single_owner_any_sequence_counterexample:
  "states [Construct 1, Construct 1] empty_world =
     Some [\<lparr>objs = [Some 1, Some 1], calls = []\<rparr>, \<lparr>objs = [Some 1], calls = []\<rparr>,
           \<lparr>objs = [], calls = []\<rparr>] \<and>
   get 0 \<lparr>objs = [Some 1, Some 1], calls = []\<rparr> = Some 1 \<and>
   get 1 \<lparr>objs = [Some 1, Some 1], calls = []\<rparr> = Some 1 \<and>
   (1::nat) \<noteq> NULL \<and>
   \<not> single_owner \<lparr>objs = [Some 1, Some 1], calls = []\<rparr>"
  by code_simp

text \<open>
  Claim C2, amended. Start from a store in which no two live instances hold the same
  non-null address (the empty store is one), and run any sequence of the public
  operations in which every raw address passed to a constructor or to \<open>reset\<close> is null or
  is held by no other live instance at that moment. Then after every operation of the
  sequence no two live instances hold the same non-null address.
\<close>

theorem single_owner_at_every_instant:
  assumes "single_owner w" "client_ok ops w" "states ops w = Some ws"
  shows "list_all single_owner ws"
  using assms by (rule states_single_owner)

theorem single_owner_at_every_instant_witness:
  "single_owner empty_world \<and>
   client_ok [Construct 5, ConstructFrom 0, Construct NULL, AssignFrom 2 1, Reset 0 7,
              Destroy 2, Move 0, Release 4] empty_world \<and>
   states [Construct 5, ConstructFrom 0, Construct NULL, AssignFrom 2 1, Reset 0 7,
           Destroy 2, Move 0, Release 4] empty_world =
     Some [\<lparr>objs = [Some 0, Some 0, None, None, Some 0], calls = [0, 0, 5, 0]\<rparr>,
           \<lparr>objs = [Some 0, Some 0, None, None, Some 7], calls = [0, 0, 5, 0]\<rparr>,
           \<lparr>objs = [Some 7, Some 0, None], calls = [0, 0, 5]\<rparr>,
           \<lparr>objs = [Some 7, Some 0, Some 5], calls = [0, 0]\<rparr>,
           \<lparr>objs = [Some 0, Some 0, Some 5], calls = [0]\<rparr>,
           \<lparr>objs = [Some 0, Some 5, Some 0], calls = []\<rparr>,
           \<lparr>objs = [Some 0, Some 5], calls = []\<rparr>,
           \<lparr>objs = [Some 5], calls = []\<rparr>,
           \<lparr>objs = [], calls = []\<rparr>] \<and>
   list_all single_owner
     [\<lparr>objs = [Some 0, Some 0, None, None, Some 0], calls = [0, 0, 5, 0]\<rparr>,
      \<lparr>objs = [Some 0, Some 0, None, None, Some 7], calls = [0, 0, 5, 0]\<rparr>,
      \<lparr>objs = [Some 7, Some 0, None], calls = [0, 0, 5]\<rparr>,
      \<lparr>objs = [Some 7, Some 0, Some 5], calls = [0, 0]\<rparr>,
      \<lparr>objs = [Some 0, Some 0, Some 5], calls = [0]\<rparr>,
      \<lparr>objs = [Some 0, Some 5, Some 0], calls = []\<rparr>,
      \<lparr>objs = [Some 0, Some 5], calls = []\<rparr>,
      \<lparr>objs = [Some 5], calls = []\<rparr>,
      \<lparr>objs = [], calls = []\<rparr>]"
proof -
  let ?ops = "[Construct 5, ConstructFrom 0, Construct NULL, AssignFrom 2 1, Reset 0 7,
               Destroy 2, Move 0, Release 4]"
  have h1: "single_owner empty_world" by code_simp
  have h2: "client_ok ?ops empty_world" by code_simp
  have h3: "states ?ops empty_world =
     Some [\<lparr>objs = [Some 0, Some 0, None, None, Some 0], calls = [0, 0, 5, 0]\<rparr>,
           \<lparr>objs = [Some 0, Some 0, None, None, Some 7], calls = [0, 0, 5, 0]\<rparr>,
           \<lparr>objs = [Some 7, Some 0, None], calls = [0, 0, 5]\<rparr>,
           \<lparr>objs = [Some 7, Some 0, Some 5], calls = [0, 0]\<rparr>,
           \<lparr>objs = [Some 0, Some 0, Some 5], calls = [0]\<rparr>,
           \<lparr>objs = [Some 0, Some 5, Some 0], calls = []\<rparr>,
           \<lparr>objs = [Some 0, Some 5], calls = []\<rparr>,
           \<lparr>objs = [Some 5], calls = []\<rparr>,
           \<lparr>objs = [], calls = []\<rparr>]" by code_simp
  from single_owner_at_every_instant [OF h1 h2 h3] h1 h2 h3 show ?thesis by blast
qed

subsection \<open>The destructor\<close>






subsection \<open>gdb::move\<close>




end
